theory Spec2Isabelle
  imports Main
begin

section \<open>The rule no-implicit-dependencies (src/rules/noImplicitDependenciesRule.ts)\<close>

text \<open>
  JavaScript strings are modelled as \<^typ>\<open>string\<close>, read as the UTF-8 encoding of the
  text. The only characters the rule inspects are \<open>/\<close> and \<open>@\<close>; both are single
  bytes that never occur inside a multi-byte sequence, so splitting at \<open>/\<close> and testing
  the first character give the same answers on the bytes as on the UTF-16 code units.
\<close>

subsection \<open>Data\<close>

text \<open>\<^verbatim>\<open>interface Options { dev: boolean; optional: boolean; ignore: ReadonlyArray<string>; }\<close>\<close>

record Options =
  dev :: bool
  optional :: bool
  ignore :: "string list"

text \<open>
  The values \<^verbatim>\<open>JSON.parse\<close> can produce. None of them is a function: that is all the
  rule's code depends on, since it never looks inside a value of a dependency section
  (so the payload of a number is kept as an integer, without loss for the rule).
\<close>

datatype json =
    JNull
  | JBool bool
  | JNumber int
  | JString string
  | JArray "json list"
  | JObject "(string \<times> json) list"

text \<open>
  \<^verbatim>\<open>interface Dependencies extends Object { [name: string]: any; }\<close>: the own enumerable
  properties of the object, in enumeration order.
\<close>

type_synonym Dependencies = "(string \<times> json) list"

text \<open>
  \<^verbatim>\<open>interface PackageJson\<close>: four optional sections; \<open>None\<close> is \<^verbatim>\<open>undefined\<close>.
\<close>

record PackageJson =
  dependencies :: "Dependencies option"
  devDependencies :: "Dependencies option"
  peerDependencies :: "Dependencies option"
  optionalDependencies :: "Dependencies option"

text \<open>What a \<^verbatim>\<open>throw\<close> inside the \<^verbatim>\<open>try\<close> block of \<^verbatim>\<open>getDependencies\<close> can carry.\<close>

datatype js_error = IOError | SyntaxError | TypeError

text \<open>
  The module specifier node that \<^verbatim>\<open>findImports\<close> yields: its \<^verbatim>\<open>text\<close> and where
  it stands in the file.
\<close>

record name_node =
  name_text :: string
  name_start :: nat
  name_width :: nat

record SourceFile =
  fileName :: string

text \<open>A reported failure: the place it is anchored at and its message.\<close>

record RuleFailure =
  failure_start :: nat
  failure_width :: nat
  failure_message :: string

text \<open>
  The collaborators the rule calls and that are not part of it: the list exported by
  \<^verbatim>\<open>builtin-modules\<close>, \<^verbatim>\<open>ts.isExternalModuleNameRelative\<close>, \<^verbatim>\<open>findImports\<close> of tsutils
  (called with \<^verbatim>\<open>ImportKind.All\<close>), Node's \<^verbatim>\<open>path\<close> and \<^verbatim>\<open>fs\<close> modules and
  \<^verbatim>\<open>JSON.parse\<close>. They are parameters of the model. \<^verbatim>\<open>fs.readFileSync\<close> and
  \<^verbatim>\<open>JSON.parse\<close> may throw, so they return a sum; \<open>JSON_parse\<close> stands for
  \<^verbatim>\<open>JSON.parse(...) as PackageJson\<close>, the parse together with the unchecked cast to the
  declared type.
\<close>

record host =
  builtins :: "string list"
  isExternalModuleNameRelative :: "string \<Rightarrow> bool"
  findImports :: "SourceFile \<Rightarrow> name_node list"
  path_resolve :: "string \<Rightarrow> string"
  path_dirname :: "string \<Rightarrow> string"
  path_join :: "string \<Rightarrow> string \<Rightarrow> string"
  fs_existsSync :: "string \<Rightarrow> bool"
  fs_readFileSync :: "string \<Rightarrow> js_error + string"
  JSON_parse :: "string \<Rightarrow> js_error + PackageJson"

subsection \<open>getPackageName\<close>

text \<open>
  \<^verbatim>\<open>name.split(/\//g)\<close> never returns an empty array, so the result is kept as the
  first part together with the list of the remaining parts: \<^verbatim>\<open>"a//b"\<close> gives
  \<^verbatim>\<open>["a", "", "b"]\<close> and the empty string gives \<^verbatim>\<open>[""]\<close>.
\<close>

fun split_slash :: "string \<Rightarrow> string \<times> string list" where
  "split_slash [] = ([], [])"
| "split_slash (c # cs) =
     (case split_slash cs of
        (p, ps) \<Rightarrow> if c = CHR ''/'' then ([], p # ps) else (c # p, ps))"

definition parts_of :: "string \<Rightarrow> string list" where
  "parts_of name = (case split_slash name of (p, ps) \<Rightarrow> p # ps)"

text \<open>
  A template literal \<^verbatim>\<open>`${v}`\<close> prints \<^verbatim>\<open>undefined\<close> as the nine letters; an array
  read past the end gives \<^verbatim>\<open>undefined\<close>.
\<close>

definition template_string :: "string option \<Rightarrow> string" where
  "template_string v = (case v of None \<Rightarrow> ''undefined'' | Some s \<Rightarrow> s)"

definition js_index :: "'a list \<Rightarrow> nat \<Rightarrow> 'a option" where
  "js_index xs i = (if i < length xs then Some (xs ! i) else None)"

text \<open>
  \<^verbatim>\<open>name[0] !== "@"\<close>: for the empty string \<^verbatim>\<open>name[0]\<close> is \<^verbatim>\<open>undefined\<close>, which
  differs from \<^verbatim>\<open>"@"\<close>.
\<close>

definition first_is_not_at :: "string \<Rightarrow> bool" where
  "first_is_not_at name = (case name of [] \<Rightarrow> True | c # _ \<Rightarrow> c \<noteq> CHR ''@'')"

definition getPackageName :: "string \<Rightarrow> string" where
  "getPackageName name =
     (case split_slash name of
        (part0, rest) \<Rightarrow>
          if first_is_not_at name then part0
          else template_string (Some part0) @ ''/'' @ template_string (js_index rest 0))"

subsection \<open>findPackageJson\<close>

text \<open>
  The \<^verbatim>\<open>do ... while (prev !== current)\<close> loop. Whether it ends depends on what
  \<^verbatim>\<open>path.dirname\<close> does, so the function is partial: \<open>None\<close> means that the loop does
  not return, \<open>Some None\<close> that it returns \<^verbatim>\<open>undefined\<close>.
\<close>

partial_function (option) findPackageJson :: "host \<Rightarrow> string \<Rightarrow> string option option" where
  "findPackageJson h current =
     (let fileName = path_join h current ''package.json'' in
      if fs_existsSync h fileName then Some (Some fileName)
      else
        (let prev = current; current' = path_dirname h current in
         if prev \<noteq> current' then findPackageJson h current' else Some None))"

declare findPackageJson.simps [code]

subsection \<open>addDependencies\<close>

text \<open>
  \<^verbatim>\<open>dependencies.hasOwnProperty(name)\<close> looks the method up on the object itself
  first. When the section has an own key \<^verbatim>\<open>hasOwnProperty\<close>, the value found is a JSON
  value, which is not callable, and the call throws a \<^verbatim>\<open>TypeError\<close>. Otherwise the
  method of \<^verbatim>\<open>Object.prototype\<close> answers whether \<open>name\<close> is an own key.
\<close>

definition hasOwnProperty_call :: "Dependencies \<Rightarrow> string \<Rightarrow> js_error + bool" where
  "hasOwnProperty_call deps name =
     (case map_of deps ''hasOwnProperty'' of
        Some v \<Rightarrow> Inl TypeError
      | None \<Rightarrow> Inr (map_of deps name \<noteq> None))"

text \<open>
  The \<^verbatim>\<open>for (const name in dependencies)\<close> loop over the keys still to visit. The set
  \<open>result\<close> is mutated in place, so what was added before a throw stays added: the loop
  returns the set together with the error that stopped it, if any.
\<close>

fun addDependencies_loop ::
  "Dependencies \<Rightarrow> string list \<Rightarrow> string set \<Rightarrow> string set \<times> js_error option" where
  "addDependencies_loop deps [] result = (result, None)"
| "addDependencies_loop deps (name # names) result =
     (case hasOwnProperty_call deps name of
        Inl e \<Rightarrow> (result, Some e)
      | Inr own \<Rightarrow> addDependencies_loop deps names (if own then insert name result else result))"

definition addDependencies :: "string set \<Rightarrow> Dependencies \<Rightarrow> string set \<times> js_error option" where
  "addDependencies result deps = addDependencies_loop deps (map fst deps) result"

subsection \<open>getDependencies\<close>

text \<open>
  \<^verbatim>\<open>.replace\<close> with the pattern for a leading U+FEFF and the empty replacement:
  a byte-order mark at the very start is removed; in
  UTF-8 it is the three bytes EF BB BF.
\<close>

definition strip_bom :: "string \<Rightarrow> string" where
  "strip_bom s = (if take 3 s = [CHR 0xEF, CHR 0xBB, CHR 0xBF] then drop 3 s else s)"

text \<open>
  One statement \<^verbatim>\<open>if (cond && content.X !== undefined) { addDependencies(result, content.X); }\<close>
  of the \<^verbatim>\<open>try\<close> block, and the sequencing of two statements: the second runs only
  when the first did not throw.
\<close>

definition addSection ::
  "bool \<Rightarrow> Dependencies option \<Rightarrow> string set \<Rightarrow> string set \<times> js_error option" where
  "addSection cond sect result =
     (if cond then (case sect of None \<Rightarrow> (result, None) | Some d \<Rightarrow> addDependencies result d)
      else (result, None))"

definition and_then ::
  "string set \<times> js_error option \<Rightarrow> (string set \<Rightarrow> string set \<times> js_error option)
     \<Rightarrow> string set \<times> js_error option" where
  "and_then st f = (case st of (result, None) \<Rightarrow> f result | (result, Some e) \<Rightarrow> (result, Some e))"

text \<open>The body of the \<^verbatim>\<open>try\<close> block, started on the set \<open>result\<close>.\<close>

definition getDependencies_try ::
  "host \<Rightarrow> string \<Rightarrow> Options \<Rightarrow> string set \<Rightarrow> string set \<times> js_error option" where
  "getDependencies_try h packageJsonPath options result =
     (case fs_readFileSync h packageJsonPath of
        Inl e \<Rightarrow> (result, Some e)
      | Inr raw \<Rightarrow>
          (case JSON_parse h (strip_bom raw) of
             Inl e \<Rightarrow> (result, Some e)
           | Inr content \<Rightarrow>
               and_then (and_then (and_then
                 (addSection True (dependencies content) result)
                 (addSection (\<not> dev options) (peerDependencies content)))
                 (addSection (dev options) (devDependencies content)))
                 (addSection (optional options) (optionalDependencies content))))"

text \<open>
  The \<^verbatim>\<open>catch\<close> clause is empty, so the function returns the set as the \<^verbatim>\<open>try\<close>
  block left it. \<open>None\<close> means that \<open>findPackageJson\<close> does not return.
\<close>

definition getDependencies :: "host \<Rightarrow> string \<Rightarrow> Options \<Rightarrow> string set option" where
  "getDependencies h file options =
     (case findPackageJson h (path_resolve h (path_dirname h file)) of
        None \<Rightarrow> None
      | Some None \<Rightarrow> Some {}
      | Some (Some packageJsonPath) \<Rightarrow>
          Some (fst (getDependencies_try h packageJsonPath options {})))"

subsection \<open>walk\<close>

definition FAILURE_STRING_FACTORY :: "string \<Rightarrow> string" where
  "FAILURE_STRING_FACTORY module =
     ''Module '' @ [CHR 0x27] @ module @ [CHR 0x27] @ '' is not listed as dependency in package.json''"

text \<open>
  The state of one run of \<^verbatim>\<open>walk\<close>: the closure variable \<^verbatim>\<open>dependencies\<close>
  (\<open>None\<close> while it is \<^verbatim>\<open>undefined\<close>) and the failures added to the context so far.
  \<open>getDependencies_calls\<close> is a counter that the source does not have: it counts the calls
  of \<^verbatim>\<open>getDependencies\<close>, each of which searches for the manifest and reads it at most
  once.
\<close>

record walk_state =
  dependencies_cell :: "string set option"
  failures :: "RuleFailure list"
  getDependencies_calls :: nat

text \<open>
  Modelled from the spec: \<^verbatim>\<open>WalkContext.addFailureAtNode\<close> (the walker context of the
  linter is not among the sources). It emits a failure at the node's location with the
  given message, after the failures emitted before.
\<close>

definition addFailureAtNode :: "walk_state \<Rightarrow> name_node \<Rightarrow> string \<Rightarrow> walk_state" where
  "addFailureAtNode st node msg =
     st\<lparr>failures := failures st @
       [\<lparr>failure_start = name_start node, failure_width = name_width node,
         failure_message = msg\<rparr>]\<rparr>"

definition shouldWarnAboutDependency ::
  "host \<Rightarrow> SourceFile \<Rightarrow> Options \<Rightarrow> string \<Rightarrow> walk_state \<Rightarrow> (bool \<times> walk_state) option" where
  "shouldWarnAboutDependency h sf options module st =
     (case (case dependencies_cell st of
              None \<Rightarrow>
                (case getDependencies h (fileName sf) options of
                   None \<Rightarrow> None
                 | Some deps \<Rightarrow>
                     Some (deps, st\<lparr>dependencies_cell := Some deps,
                                    getDependencies_calls := Suc (getDependencies_calls st)\<rparr>))
            | Some deps \<Rightarrow> Some (deps, st)) of
        None \<Rightarrow> None
      | Some (deps, st') \<Rightarrow>
          (let hasDependency = module \<in> deps;
               shouldIgnore = module \<in> set (ignore options)
           in Some (\<not> (hasDependency \<or> shouldIgnore), st')))"

text \<open>The body of the \<^verbatim>\<open>for\<close> loop, for one node.\<close>

definition walk_body ::
  "host \<Rightarrow> SourceFile \<Rightarrow> Options \<Rightarrow> name_node \<Rightarrow> walk_state \<Rightarrow> walk_state option" where
  "walk_body h sf options name st =
     (if \<not> isExternalModuleNameRelative h (name_text name) then
        (let packageName = getPackageName (name_text name) in
         if packageName \<notin> set (builtins h) then
           (case shouldWarnAboutDependency h sf options packageName st of
              None \<Rightarrow> None
            | Some (warn, st') \<Rightarrow>
                Some (if warn
                      then addFailureAtNode st' name (FAILURE_STRING_FACTORY packageName)
                      else st'))
         else Some st)
      else Some st)"

fun walk_loop ::
  "host \<Rightarrow> SourceFile \<Rightarrow> Options \<Rightarrow> name_node list \<Rightarrow> walk_state \<Rightarrow> walk_state option" where
  "walk_loop h sf options [] st = Some st"
| "walk_loop h sf options (name # names) st =
     (case walk_body h sf options name st of
        None \<Rightarrow> None
      | Some st' \<Rightarrow> walk_loop h sf options names st')"

definition walk :: "host \<Rightarrow> SourceFile \<Rightarrow> Options \<Rightarrow> walk_state option" where
  "walk h sf options =
     walk_loop h sf options (findImports h sf)
       \<lparr>dependencies_cell = None, failures = [], getDependencies_calls = 0\<rparr>"

subsection \<open>What the specification says, in the model's terms\<close>

text \<open>
  A reference reaches the decision on the allowed set when it is neither relative nor
  the name of a built-in module; it is a violation when, besides, its package name is
  neither allowed nor ignored. \<open>failure_at\<close> is the failure the specification asks for:
  at the reference's location, with the message built from the package name.
\<close>

definition needs_decision :: "host \<Rightarrow> name_node \<Rightarrow> bool" where
  "needs_decision h name =
     (\<not> isExternalModuleNameRelative h (name_text name) \<and>
      getPackageName (name_text name) \<notin> set (builtins h))"

definition is_violation :: "host \<Rightarrow> Options \<Rightarrow> string set \<Rightarrow> name_node \<Rightarrow> bool" where
  "is_violation h options allowed name =
     (\<not> isExternalModuleNameRelative h (name_text name) \<and>
      getPackageName (name_text name) \<notin> set (builtins h) \<and>
      getPackageName (name_text name) \<notin> allowed \<and>
      getPackageName (name_text name) \<notin> set (ignore options))"

definition failure_at :: "name_node \<Rightarrow> RuleFailure" where
  "failure_at name =
     \<lparr>failure_start = name_start name, failure_width = name_width name,
      failure_message = FAILURE_STRING_FACTORY (getPackageName (name_text name))\<rparr>"

text \<open>
  The package name as the specification words it: the first two segments joined by a
  slash for a text that starts with \<open>@\<close>, the first segment otherwise.
\<close>

fun join_slash :: "string list \<Rightarrow> string" where
  "join_slash [] = []"
| "join_slash [p] = p"
| "join_slash (p # q # ps) = p @ ''/'' @ join_slash (q # ps)"

definition packageName_spec :: "string \<Rightarrow> string" where
  "packageName_spec name =
     (if first_is_not_at name then join_slash (take 1 (parts_of name))
      else join_slash (take 2 (parts_of name)))"

text \<open>
  The allowed set as the specification words it: the keys of \<^verbatim>\<open>dependencies\<close>, of
  \<^verbatim>\<open>devDependencies\<close> or else \<^verbatim>\<open>peerDependencies\<close>, and of \<^verbatim>\<open>optionalDependencies\<close>
  when asked for. A section that is absent has no keys.
\<close>

definition section_keys :: "Dependencies option \<Rightarrow> string set" where
  "section_keys sect = (case sect of None \<Rightarrow> {} | Some d \<Rightarrow> set (map fst d))"

definition allowed_spec :: "PackageJson \<Rightarrow> Options \<Rightarrow> string set" where
  "allowed_spec content options =
     section_keys (dependencies content) \<union>
     (if dev options then section_keys (devDependencies content)
      else section_keys (peerDependencies content)) \<union>
     (if optional options then section_keys (optionalDependencies content) else {})"

text \<open>A section is shadowed when one of its keys is \<^verbatim>\<open>hasOwnProperty\<close>.\<close>

definition shadowed :: "Dependencies option \<Rightarrow> bool" where
  "shadowed sect =
     (case sect of None \<Rightarrow> False | Some d \<Rightarrow> map_of d ''hasOwnProperty'' \<noteq> None)"

text \<open>
  The chain of directories the search walks through, and the manifest path it tests in
  each of them.
\<close>

definition ancestor :: "host \<Rightarrow> string \<Rightarrow> nat \<Rightarrow> string" where
  "ancestor h d k = (path_dirname h ^^ k) d"

definition manifest_at :: "host \<Rightarrow> string \<Rightarrow> string" where
  "manifest_at h dir = path_join h dir ''package.json''"

subsection \<open>A small host, for running the rule on concrete files\<close>

text \<open>
  Absolute POSIX paths without a trailing slash; the parent of the root is the root. A
  file is listed with its content, or with \<open>None\<close> when it exists and cannot be read. The
  parser is a table from contents to manifests, and fails on any other content.
\<close>

definition sample_dirname :: "string \<Rightarrow> string" where
  "sample_dirname p =
     (let d = rev (drop 1 (dropWhile (\<lambda>c. c \<noteq> CHR ''/'') (rev p)))
      in if d = [] then ''/'' else d)"

definition sample_join :: "string \<Rightarrow> string \<Rightarrow> string" where
  "sample_join dir file = (if dir = ''/'' then dir @ file else dir @ ''/'' @ file)"

definition sample_relative :: "string \<Rightarrow> bool" where
  "sample_relative s = (s = ''.'' \<or> s = ''..'' \<or> take 2 s = ''./'' \<or> take 3 s = ''../'')"

definition sample_host ::
  "(string \<times> string option) list \<Rightarrow> (string \<times> PackageJson) list \<Rightarrow> name_node list \<Rightarrow> host" where
  "sample_host files manifests imports =
     \<lparr>builtins = [''fs'', ''path''],
      isExternalModuleNameRelative = sample_relative,
      findImports = (\<lambda>sf. imports),
      path_resolve = (\<lambda>p. p),
      path_dirname = sample_dirname,
      path_join = sample_join,
      fs_existsSync = (\<lambda>p. map_of files p \<noteq> None),
      fs_readFileSync =
        (\<lambda>p. case map_of files p of Some (Some raw) \<Rightarrow> Inr raw | _ \<Rightarrow> Inl IOError),
      JSON_parse =
        (\<lambda>raw. case map_of manifests raw of Some m \<Rightarrow> Inr m | None \<Rightarrow> Inl SyntaxError)\<rparr>"

definition node :: "string \<Rightarrow> nat \<Rightarrow> name_node" where
  "node t start = \<lparr>name_text = t, name_start = start, name_width = length t + 2\<rparr>"

definition plain_options :: Options where
  "plain_options = \<lparr>dev = False, optional = False, ignore = []\<rparr>"

definition a_ts :: SourceFile where
  "a_ts = \<lparr>fileName = ''/proj/src/a.ts''\<rparr>"

definition project_manifest :: PackageJson where
  "project_manifest =
     \<lparr>dependencies = Some [(''lodash'', JString ''^4.17.0'')],
      devDependencies = Some [(''chai'', JString ''^4.1.0'')],
      peerDependencies = Some [(''react'', JString ''^16.0.0'')],
      optionalDependencies = Some [(''fsevents'', JString ''^1.2.0'')]\<rparr>"

definition project_files :: "(string \<times> string option) list" where
  "project_files = [(''/proj/package.json'', Some ''project manifest'')]"

definition project_manifests :: "(string \<times> PackageJson) list" where
  "project_manifests = [(''project manifest'', project_manifest)]"

definition project_imports :: "name_node list" where
  "project_imports =
     [node ''./local'' 10, node ''fs'' 30, node ''lodash/fp'' 50, node ''left-pad'' 70,
      node ''@myorg/utils/helpers'' 90, node ''left-pad'' 120]"

definition project_host :: host where
  "project_host = sample_host project_files project_manifests project_imports"

text \<open>The same project, with a dependency named \<^verbatim>\<open>hasOwnProperty\<close> in its manifest.\<close>

definition shadow_manifest :: PackageJson where
  "shadow_manifest =
     \<lparr>dependencies =
        Some [(''hasOwnProperty'', JString ''^1.0.0''), (''lodash'', JString ''^4.17.0'')],
      devDependencies = None, peerDependencies = None, optionalDependencies = None\<rparr>"

definition shadow_host :: host where
  "shadow_host =
     sample_host project_files [(''project manifest'', shadow_manifest)] [node ''lodash'' 8]"

text \<open>
  The project with a manifest that cannot be read, with one that does not parse, and
  with none at all.
\<close>

definition unreadable_host :: host where
  "unreadable_host =
     sample_host [(''/proj/package.json'', None)] project_manifests project_imports"

definition malformed_host :: host where
  "malformed_host =
     sample_host [(''/proj/package.json'', Some ''{ not a manifest'')] project_manifests
       project_imports"

definition bare_host :: host where
  "bare_host = sample_host [] project_manifests project_imports"

text \<open>A file whose only import has the empty text, checked with the empty name ignored.\<close>

definition empty_import_host :: host where
  "empty_import_host = sample_host project_files project_manifests [node [] 7]"

definition ignore_empty_options :: Options where
  "ignore_empty_options = \<lparr>dev = False, optional = False, ignore = [[]]\<rparr>"

section \<open>Properties\<close>

subsection \<open>Package names\<close>

lemma split_slash_no_slash: "CHR ''/'' \<notin> set s \<Longrightarrow> split_slash s = (s, [])"
  by (induction s) auto

lemma split_slash_some_slash: "CHR ''/'' \<in> set s \<Longrightarrow> snd (split_slash s) \<noteq> []"
  by (induction s) (auto split: prod.splits)

lemma getPackageName_unscoped:
  "first_is_not_at name \<Longrightarrow> getPackageName name = fst (split_slash name)"
  by (simp add: getPackageName_def split: prod.splits)

lemma getPackageName_scoped:
  "\<not> first_is_not_at name \<Longrightarrow> split_slash name = (p0, p1 # ps) \<Longrightarrow>
   getPackageName name = p0 @ ''/'' @ p1"
  by (simp add: getPackageName_def template_string_def js_index_def)

lemma getPackageName_agrees_with_spec:
  assumes "first_is_not_at name \<or> CHR ''/'' \<in> set name"
  shows "getPackageName name = packageName_spec name"
proof (cases "first_is_not_at name")
  case True
  then show ?thesis
    by (simp add: getPackageName_unscoped packageName_spec_def parts_of_def split: prod.splits)
next
  case False
  with assms have "snd (split_slash name) \<noteq> []"
    by (simp add: split_slash_some_slash)
  then obtain p0 p1 ps where "split_slash name = (p0, p1 # ps)"
    by (cases "split_slash name"; cases "snd (split_slash name)") auto
  with False show ?thesis
    by (simp add: getPackageName_scoped packageName_spec_def parts_of_def)
qed

subsection \<open>The search for the manifest and the allowed set\<close>

lemma findPackageJson_unfold:
  "findPackageJson h d =
     (if fs_existsSync h (manifest_at h d) then Some (Some (manifest_at h d))
      else if d \<noteq> path_dirname h d then findPackageJson h (path_dirname h d)
      else Some None)"
  by (subst findPackageJson.simps) (simp add: Let_def manifest_at_def)

lemma ancestor_0: "ancestor h d 0 = d"
  by (simp add: ancestor_def)

lemma ancestor_Suc: "ancestor h d (Suc k) = ancestor h (path_dirname h d) k"
  by (simp add: ancestor_def funpow_swap1)

lemma findPackageJson_search:
  "ancestor h d (Suc n) = ancestor h d n \<Longrightarrow>
   \<exists>k\<le>n.
     (\<forall>j<k. \<not> fs_existsSync h (manifest_at h (ancestor h d j)) \<and>
            ancestor h d (Suc j) \<noteq> ancestor h d j) \<and>
     (if fs_existsSync h (manifest_at h (ancestor h d k))
      then findPackageJson h d = Some (Some (manifest_at h (ancestor h d k)))
      else ancestor h d (Suc k) = ancestor h d k \<and> findPackageJson h d = Some None)"
proof (induction n arbitrary: d)
  case 0
  then have root: "path_dirname h d = d"
    by (simp add: ancestor_def)
  show ?case
    by (subst (1 2) findPackageJson_unfold) (simp add: ancestor_def root)
next
  case (Suc n)
  let ?d' = "path_dirname h d"
  show ?case
  proof (cases "fs_existsSync h (manifest_at h d) \<or> ?d' = d")
    case True
    then have "(if fs_existsSync h (manifest_at h (ancestor h d 0))
      then findPackageJson h d = Some (Some (manifest_at h (ancestor h d 0)))
      else ancestor h d (Suc 0) = ancestor h d 0 \<and> findPackageJson h d = Some None)"
      by (subst (1 2) findPackageJson_unfold) (auto simp: ancestor_def)
    then show ?thesis
      by (intro exI[of _ 0]) simp
  next
    case False
    then have no: "\<not> fs_existsSync h (manifest_at h d)" and up: "?d' \<noteq> d"
      by simp_all
    have step: "findPackageJson h d = findPackageJson h ?d'"
      using no up by (subst findPackageJson_unfold) auto
    from Suc.prems have "ancestor h ?d' (Suc n) = ancestor h ?d' n"
      by (simp add: ancestor_Suc)
    from Suc.IH[OF this] obtain k where k: "k \<le> n"
      and before: "\<forall>j<k. \<not> fs_existsSync h (manifest_at h (ancestor h ?d' j)) \<and>
            ancestor h ?d' (Suc j) \<noteq> ancestor h ?d' j"
      and at: "if fs_existsSync h (manifest_at h (ancestor h ?d' k))
      then findPackageJson h ?d' = Some (Some (manifest_at h (ancestor h ?d' k)))
      else ancestor h ?d' (Suc k) = ancestor h ?d' k \<and> findPackageJson h ?d' = Some None"
      by blast
    have "\<forall>j<Suc k. \<not> fs_existsSync h (manifest_at h (ancestor h d j)) \<and>
            ancestor h d (Suc j) \<noteq> ancestor h d j"
    proof (intro allI impI)
      fix j assume "j < Suc k"
      show "\<not> fs_existsSync h (manifest_at h (ancestor h d j)) \<and>
            ancestor h d (Suc j) \<noteq> ancestor h d j"
      proof (cases j)
        case 0
        then show ?thesis using no up by (simp add: ancestor_def)
      next
        case (Suc i)
        then have "i < k" using \<open>j < Suc k\<close> by simp
        then show ?thesis using before Suc by (simp add: ancestor_Suc)
      qed
    qed
    moreover have "if fs_existsSync h (manifest_at h (ancestor h d (Suc k)))
      then findPackageJson h d = Some (Some (manifest_at h (ancestor h d (Suc k))))
      else ancestor h d (Suc (Suc k)) = ancestor h d (Suc k) \<and> findPackageJson h d = Some None"
      using at by (auto simp: step ancestor_Suc split: if_splits)
    ultimately show ?thesis
      using k by (intro exI[of _ "Suc k"]) simp
  qed
qed

lemma addDependencies_loop_plain:
  "map_of deps ''hasOwnProperty'' = None \<Longrightarrow> set names \<subseteq> set (map fst deps) \<Longrightarrow>
   addDependencies_loop deps names result = (result \<union> set names, None)"
proof (induction names arbitrary: result)
  case Nil
  then show ?case by simp
next
  case (Cons name names)
  from Cons.prems(2) have "name \<in> fst ` set deps" by simp
  then have "map_of deps name \<noteq> None"
    by (simp add: map_of_eq_None_iff)
  then show ?case
    using Cons by (simp add: hasOwnProperty_call_def)
qed

lemma addDependencies_plain:
  "map_of deps ''hasOwnProperty'' = None \<Longrightarrow>
   addDependencies result deps = (result \<union> set (map fst deps), None)"
  by (simp add: addDependencies_def addDependencies_loop_plain)

lemma addDependencies_shadowed:
  "map_of deps ''hasOwnProperty'' = Some v \<Longrightarrow>
   addDependencies result deps = (result, Some TypeError)"
  by (cases deps) (auto simp: addDependencies_def hasOwnProperty_call_def)

lemma addSection_plain:
  "\<not> shadowed sect \<Longrightarrow>
   addSection cond sect result = (result \<union> (if cond then section_keys sect else {}), None)"
  by (auto simp: addSection_def shadowed_def section_keys_def addDependencies_plain
      split: option.splits)

lemma getDependencies_try_plain:
  assumes "fs_readFileSync h p = Inr raw" and "JSON_parse h (strip_bom raw) = Inr content"
    and "\<not> shadowed (dependencies content)"
    and "\<not> shadowed (peerDependencies content)"
    and "\<not> shadowed (devDependencies content)"
    and "\<not> shadowed (optionalDependencies content)"
  shows "getDependencies_try h p options result = (result \<union> allowed_spec content options, None)"
  using assms
  by (auto simp: getDependencies_try_def and_then_def addSection_plain allowed_spec_def)

lemma getDependencies_try_fails:
  "fs_readFileSync h p = Inl e \<or>
   (\<exists>raw. fs_readFileSync h p = Inr raw \<and> JSON_parse h (strip_bom raw) = Inl e) \<Longrightarrow>
   getDependencies_try h p options result = (result, Some e)"
  by (auto simp: getDependencies_try_def)
lemma getDependencies_union:
  assumes "findPackageJson h (path_resolve h (path_dirname h file)) = Some (Some p)"
    and "fs_readFileSync h p = Inr raw"
    and "JSON_parse h (strip_bom raw) = Inr content"
    and "\<not> shadowed (dependencies content)"
    and "\<not> shadowed (peerDependencies content)"
    and "\<not> shadowed (devDependencies content)"
    and "\<not> shadowed (optionalDependencies content)"
  shows "getDependencies h file options = Some (allowed_spec content options)"
  using assms by (simp add: getDependencies_def getDependencies_try_plain)

subsection \<open>The loop over the references\<close>

lemma shouldWarn_cached:
  "dependencies_cell st = Some deps \<Longrightarrow>
   shouldWarnAboutDependency h sf options m st =
     Some (m \<notin> deps \<and> m \<notin> set (ignore options), st)"
  by (simp add: shouldWarnAboutDependency_def)

lemma shouldWarn_first:
  "dependencies_cell st = None \<Longrightarrow>
   shouldWarnAboutDependency h sf options m st =
     map_option (\<lambda>deps. (m \<notin> deps \<and> m \<notin> set (ignore options),
        st\<lparr>dependencies_cell := Some deps,
           getDependencies_calls := Suc (getDependencies_calls st)\<rparr>))
       (getDependencies h (fileName sf) options)"
  by (simp add: shouldWarnAboutDependency_def split: option.splits)

lemma walk_body_skip:
  "\<not> needs_decision h name \<Longrightarrow> walk_body h sf options name st = Some st"
  by (auto simp: walk_body_def needs_decision_def Let_def)

lemma walk_body_cached:
  "dependencies_cell st = Some deps \<Longrightarrow>
   walk_body h sf options name st =
     Some (if is_violation h options deps name
           then st\<lparr>failures := failures st @ [failure_at name]\<rparr> else st)"
  by (auto simp: walk_body_def is_violation_def failure_at_def Let_def
      shouldWarn_cached addFailureAtNode_def)

lemma walk_body_first:
  "dependencies_cell st = None \<Longrightarrow> needs_decision h name \<Longrightarrow>
   walk_body h sf options name st =
     map_option (\<lambda>deps.
        st\<lparr>dependencies_cell := Some deps,
           getDependencies_calls := Suc (getDependencies_calls st),
           failures := failures st @ (if is_violation h options deps name then [failure_at name] else [])\<rparr>)
       (getDependencies h (fileName sf) options)"
  by (cases "getDependencies h (fileName sf) options")
     (auto simp: walk_body_def is_violation_def needs_decision_def failure_at_def Let_def
      shouldWarn_first addFailureAtNode_def)

lemma walk_loop_cached:
  "dependencies_cell st = Some deps \<Longrightarrow>
   walk_loop h sf options names st =
     Some (st\<lparr>failures := failures st @ map failure_at (filter (is_violation h options deps) names)\<rparr>)"
proof (induction names arbitrary: st)
  case Nil
  then show ?case by simp
next
  case (Cons name names)
  then show ?case by (simp add: walk_body_cached)
qed

lemma not_needed_not_violation:
  "\<not> needs_decision h name \<Longrightarrow> \<not> is_violation h options deps name"
  by (auto simp: needs_decision_def is_violation_def)

lemma walk_loop_first:
  "dependencies_cell st = None \<Longrightarrow>
   walk_loop h sf options names st =
     (if \<exists>name \<in> set names. needs_decision h name
      then map_option (\<lambda>deps.
             st\<lparr>dependencies_cell := Some deps,
                getDependencies_calls := Suc (getDependencies_calls st),
                failures := failures st @ map failure_at (filter (is_violation h options deps) names)\<rparr>)
           (getDependencies h (fileName sf) options)
      else Some st)"
proof (induction names arbitrary: st)
  case Nil
  then show ?case by simp
next
  case (Cons name names)
  show ?case
  proof (cases "needs_decision h name")
    case False
    then show ?thesis
      using Cons by (simp add: walk_body_skip not_needed_not_violation)
  next
    case True
    show ?thesis
    proof (cases "getDependencies h (fileName sf) options")
      case None
      then show ?thesis using True Cons.prems by (simp add: walk_body_first)
    next
      case (Some deps)
      then show ?thesis using True Cons.prems
        by (simp add: walk_body_first walk_loop_cached)
    qed
  qed
qed

lemma walk_char:
  "walk h sf options =
     (if \<exists>name \<in> set (findImports h sf). needs_decision h name
      then map_option (\<lambda>deps.
             \<lparr>dependencies_cell = Some deps,
              failures = map failure_at (filter (is_violation h options deps) (findImports h sf)),
              getDependencies_calls = 1\<rparr>)
           (getDependencies h (fileName sf) options)
      else Some \<lparr>dependencies_cell = None, failures = [], getDependencies_calls = 0\<rparr>)"
  by (simp add: walk_def walk_loop_first)

lemma walk_failures_needed:
  assumes "walk h sf options = Some st" and "f \<in> set (failures st)"
  shows "\<exists>n \<in> set (findImports h sf). f = failure_at n \<and> needs_decision h n"
proof (cases "\<exists>name \<in> set (findImports h sf). needs_decision h name")
  case True
  with assms obtain deps where
    "f \<in> set (map failure_at (filter (is_violation h options deps) (findImports h sf)))"
    by (auto simp: walk_char)
  then show ?thesis
    by (auto simp: is_violation_def needs_decision_def)
next
  case False
  with assms show ?thesis by (auto simp: walk_char)
qed

lemma no_decision_no_violation:
  "\<not> (\<exists>name \<in> set names. needs_decision h name) \<Longrightarrow>
   filter (is_violation h options allowed) names = []"
  by (auto simp: filter_empty_conv not_needed_not_violation)

lemma walk_failures_resolved:
  assumes "getDependencies h (fileName sf) options = Some allowed"
  shows "map_option failures (walk h sf options) =
     Some (map failure_at (filter (is_violation h options allowed) (findImports h sf)))"
  using assms by (simp add: walk_char no_decision_no_violation)

subsection \<open>Running the small host\<close>

lemma sample_dirname_evals:
  "sample_dirname ''/proj/src/a.ts'' = ''/proj/src''"
  "sample_dirname ''/proj/src'' = ''/proj''"
  "sample_dirname ''/proj'' = ''/''"
  "sample_dirname ''/'' = ''/''"
  by (simp_all add: sample_dirname_def)

lemma sample_host_sel:
  "builtins (sample_host fs ms is) = [''fs'', ''path'']"
  "isExternalModuleNameRelative (sample_host fs ms is) = sample_relative"
  "findImports (sample_host fs ms is) sf = is"
  "path_resolve (sample_host fs ms is) p = p"
  "path_dirname (sample_host fs ms is) = sample_dirname"
  "path_join (sample_host fs ms is) = sample_join"
  "fs_existsSync (sample_host fs ms is) p = (map_of fs p \<noteq> None)"
  "fs_readFileSync (sample_host fs ms is) p =
     (case map_of fs p of Some (Some raw) \<Rightarrow> Inr raw | _ \<Rightarrow> Inl IOError)"
  "JSON_parse (sample_host fs ms is) raw =
     (case map_of ms raw of Some m \<Rightarrow> Inr m | None \<Rightarrow> Inl SyntaxError)"
  by (simp_all add: sample_host_def)

lemma project_found:
  "findPackageJson (sample_host [(''/proj/package.json'', c)] ms is) ''/proj/src'' =
     Some (Some ''/proj/package.json'')"
  by (simp add: findPackageJson_unfold sample_host_sel manifest_at_def sample_join_def
      sample_dirname_evals)

lemma bare_not_found:
  "findPackageJson (sample_host [] ms is) ''/proj/src'' = Some None"
  by (simp add: findPackageJson_unfold sample_host_sel manifest_at_def sample_join_def
      sample_dirname_evals)

lemma project_allowed:
  "getDependencies project_host ''/proj/src/a.ts'' plain_options = Some {''lodash'', ''react''}"
  by (auto simp: getDependencies_def project_host_def sample_host_sel sample_dirname_evals
      project_found getDependencies_try_def project_files_def project_manifests_def
      strip_bom_def and_then_def addSection_def addDependencies_def hasOwnProperty_call_def
      project_manifest_def plain_options_def)

lemma shadow_allowed:
  "getDependencies shadow_host ''/proj/src/a.ts'' plain_options = Some {}"
  by (simp add: getDependencies_def shadow_host_def sample_host_sel sample_dirname_evals
      project_found getDependencies_try_def project_files_def
      strip_bom_def and_then_def addSection_def addDependencies_def hasOwnProperty_call_def
      shadow_manifest_def plain_options_def)

lemma getPackageName_evals:
  "getPackageName ''./local'' = ''.''"
  "getPackageName ''fs'' = ''fs''"
  "getPackageName ''lodash/fp'' = ''lodash''"
  "getPackageName ''left-pad'' = ''left-pad''"
  "getPackageName ''@myorg/utils/helpers'' = ''@myorg/utils''"
  "getPackageName ''@scope/pkg/sub'' = ''@scope/pkg''"
  "getPackageName ''@scope'' = ''@scope/undefined''"
  "getPackageName [] = []"
  by (simp_all add: getPackageName_def first_is_not_at_def template_string_def js_index_def)

lemma project_walk_refs:
  "filter (needs_decision project_host) project_imports =
     [node ''lodash/fp'' 50, node ''left-pad'' 70, node ''@myorg/utils/helpers'' 90,
      node ''left-pad'' 120]"
  by (simp add: project_imports_def needs_decision_def project_host_def sample_host_sel
      node_def sample_relative_def getPackageName_evals)

lemma project_run:
  "walk project_host a_ts plain_options \<noteq> None"
  by (simp add: walk_char a_ts_def project_allowed)

lemma unreadable_evals:
  "findPackageJson unreadable_host ''/proj/src'' = Some (Some ''/proj/package.json'')"
  "fs_readFileSync unreadable_host ''/proj/package.json'' = Inl IOError"
  "path_resolve unreadable_host (path_dirname unreadable_host ''/proj/src/a.ts'') = ''/proj/src''"
  by (simp_all add: unreadable_host_def project_found sample_host_sel sample_dirname_evals)

lemma malformed_evals:
  "findPackageJson malformed_host ''/proj/src'' = Some (Some ''/proj/package.json'')"
  "fs_readFileSync malformed_host ''/proj/package.json'' = Inr ''{ not a manifest''"
  "JSON_parse malformed_host (strip_bom ''{ not a manifest'') = Inl SyntaxError"
  "path_resolve malformed_host (path_dirname malformed_host ''/proj/src/a.ts'') = ''/proj/src''"
  by (simp_all add: malformed_host_def project_found sample_host_sel sample_dirname_evals
      strip_bom_def project_manifests_def)

lemma bare_evals:
  "findPackageJson bare_host ''/proj/src'' = Some None"
  "path_resolve bare_host (path_dirname bare_host ''/proj/src/a.ts'') = ''/proj/src''"
  by (simp_all add: bare_host_def bare_not_found sample_host_sel sample_dirname_evals)

lemma bare_ancestors:
  "ancestor bare_host ''/proj/src'' 0 = ''/proj/src''"
  "ancestor bare_host ''/proj/src'' (Suc 0) = ''/proj''"
  "ancestor bare_host ''/proj/src'' (Suc (Suc 0)) = ''/''"
  "ancestor bare_host ''/proj/src'' (Suc (Suc (Suc 0))) = ''/''"
  by (simp_all add: ancestor_def bare_host_def sample_host_sel sample_dirname_evals)

lemma empty_import_allowed:
  "getDependencies empty_import_host ''/proj/src/a.ts'' options =
     Some (allowed_spec project_manifest options)"
proof -
  have "findPackageJson empty_import_host
          (path_resolve empty_import_host (path_dirname empty_import_host ''/proj/src/a.ts'')) =
        Some (Some ''/proj/package.json'')"
    by (simp add: empty_import_host_def project_files_def project_found sample_host_sel
        sample_dirname_evals)
  moreover have "fs_readFileSync empty_import_host ''/proj/package.json'' = Inr ''project manifest''"
    by (simp add: empty_import_host_def project_files_def sample_host_sel)
  moreover have "JSON_parse empty_import_host (strip_bom ''project manifest'') = Inr project_manifest"
    by (simp add: empty_import_host_def project_manifests_def sample_host_sel strip_bom_def)
  moreover have "\<not> shadowed (dependencies project_manifest)"
    "\<not> shadowed (peerDependencies project_manifest)"
    "\<not> shadowed (devDependencies project_manifest)"
    "\<not> shadowed (optionalDependencies project_manifest)"
    by (simp_all add: shadowed_def project_manifest_def)
  ultimately show ?thesis
    by (rule getDependencies_union)
qed

lemma project_manifest_allowed:
  "allowed_spec project_manifest \<lparr>dev = False, optional = False, ignore = xs\<rparr> =
     {''lodash'', ''react''}"
  by (auto simp: allowed_spec_def section_keys_def project_manifest_def)

text \<open>
  In the small host every directory has finitely many ancestors, so the search returns
  from any starting directory.
\<close>

lemma sample_dirname_shorter:
  "sample_dirname p = ''/'' \<or> length (sample_dirname p) < length p"
proof -
  define ys where "ys = dropWhile (\<lambda>c. c \<noteq> CHR ''/'') (rev p)"
  have le: "length ys \<le> length p"
    unfolding ys_def using length_dropWhile_le[of _ "rev p"] by simp
  have eq: "sample_dirname p = (if drop 1 ys = [] then ''/'' else rev (drop 1 ys))"
    by (simp add: sample_dirname_def ys_def Let_def)
  show ?thesis
  proof (cases "drop 1 ys = []")
    case True
    then show ?thesis by (simp add: eq)
  next
    case False
    then have "length (drop 1 ys) < length ys" by (cases ys) auto
    with le False show ?thesis by (simp add: eq)
  qed
qed

lemma sample_dirname_reaches_root:
  "\<exists>n. (sample_dirname ^^ Suc n) p = (sample_dirname ^^ n) p"
proof (induction "length p" arbitrary: p rule: less_induct)
  case less
  show ?case
  proof (cases "sample_dirname p = ''/''")
    case True
    then have "(sample_dirname ^^ Suc 1) p = (sample_dirname ^^ 1) p"
      by (simp add: sample_dirname_evals)
    then show ?thesis by blast
  next
    case False
    with sample_dirname_shorter[of p] have "length (sample_dirname p) < length p"
      by simp
    from less[OF this] obtain n where
      "(sample_dirname ^^ Suc n) (sample_dirname p) = (sample_dirname ^^ n) (sample_dirname p)"
      by blast
    then have "(sample_dirname ^^ Suc (Suc n)) p = (sample_dirname ^^ Suc n) p"
      by (simp add: funpow_swap1)
    then show ?thesis by blast
  qed
qed

lemma sample_host_search_returns:
  "findPackageJson (sample_host files manifests imports) d \<noteq> None"
proof -
  obtain n where "ancestor (sample_host files manifests imports) d (Suc n) =
      ancestor (sample_host files manifests imports) d n"
    using sample_dirname_reaches_root[of d] by (auto simp: ancestor_def sample_host_sel)
  from findPackageJson_search[OF this] show ?thesis
    by (auto split: if_splits)
qed

section \<open>The claims\<close>

text \<open>
  C1. \<open>walk\<close> emits a failure for a reference exactly when the reference is not
  relative, its package name is not a built-in module, not in the set that
  \<open>getDependencies\<close> returns and not in \<open>ignore\<close>. The failures are those of the violating
  references in the order of the references, one for each occurrence, each at the
  reference's location with the message
  \<^verbatim>\<open>Module '<package name>' is not listed as dependency in package.json\<close>. When no
  reference reaches the decision, \<open>walk\<close> returns no failure without resolving anything;
  otherwise it returns if and only if \<open>getDependencies\<close> does.
\<close>

theorem walk_reports_violations:
  "map_option failures (walk h sf options) =
     (if \<exists>name \<in> set (findImports h sf). needs_decision h name
      then map_option
             (\<lambda>allowed. map failure_at (filter (is_violation h options allowed) (findImports h sf)))
             (getDependencies h (fileName sf) options)
      else Some []) \<and>
   failure_message (failure_at name) =
     ''Module '' @ [CHR 0x27] @ getPackageName (name_text name) @ [CHR 0x27] @
     '' is not listed as dependency in package.json''"
  by (simp add: walk_char option.map_comp comp_def failure_at_def FAILURE_STRING_FACTORY_def)

theorem walk_reports_violations_witness:
  "map_option failures (walk project_host a_ts plain_options) =
     Some [\<lparr>failure_start = 70, failure_width = 10,
             failure_message = ''Module '' @ [CHR 0x27] @ ''left-pad'' @ [CHR 0x27] @
               '' is not listed as dependency in package.json''\<rparr>,
           \<lparr>failure_start = 90, failure_width = 22,
             failure_message = ''Module '' @ [CHR 0x27] @ ''@myorg/utils'' @ [CHR 0x27] @
               '' is not listed as dependency in package.json''\<rparr>,
           \<lparr>failure_start = 120, failure_width = 10,
             failure_message = ''Module '' @ [CHR 0x27] @ ''left-pad'' @ [CHR 0x27] @
               '' is not listed as dependency in package.json''\<rparr>]"
proof -
  have refs: "findImports project_host a_ts = project_imports"
    by (simp add: project_host_def sample_host_sel)
  have some: "\<exists>name \<in> set (findImports project_host a_ts). needs_decision project_host name"
    by (simp add: refs project_imports_def needs_decision_def project_host_def sample_host_sel
        node_def sample_relative_def getPackageName_evals)
  have allowed: "getDependencies project_host (fileName a_ts) plain_options =
      Some {''lodash'', ''react''}"
    by (simp add: a_ts_def project_allowed)
  have viol: "filter (is_violation project_host plain_options {''lodash'', ''react''})
      project_imports =
      [node ''left-pad'' 70, node ''@myorg/utils/helpers'' 90, node ''left-pad'' 120]"
    by (simp add: project_imports_def is_violation_def project_host_def sample_host_sel
        node_def sample_relative_def getPackageName_evals plain_options_def)
  from walk_reports_violations[of project_host a_ts plain_options]
  have run: "map_option failures (walk project_host a_ts plain_options) =
      Some (map failure_at
        [node ''left-pad'' 70, node ''@myorg/utils/helpers'' 90, node ''left-pad'' 120])"
    using some by (simp add: allowed refs viol)
  have shown: "map failure_at
        [node ''left-pad'' 70, node ''@myorg/utils/helpers'' 90, node ''left-pad'' 120] =
      [\<lparr>failure_start = 70, failure_width = 10,
             failure_message = ''Module '' @ [CHR 0x27] @ ''left-pad'' @ [CHR 0x27] @
               '' is not listed as dependency in package.json''\<rparr>,
           \<lparr>failure_start = 90, failure_width = 22,
             failure_message = ''Module '' @ [CHR 0x27] @ ''@myorg/utils'' @ [CHR 0x27] @
               '' is not listed as dependency in package.json''\<rparr>,
           \<lparr>failure_start = 120, failure_width = 10,
             failure_message = ''Module '' @ [CHR 0x27] @ ''left-pad'' @ [CHR 0x27] @
               '' is not listed as dependency in package.json''\<rparr>]"
    by (simp add: failure_at_def node_def getPackageName_evals FAILURE_STRING_FACTORY_def)
  show ?thesis
    unfolding run shown by (rule refl)
qed

text \<open>
  C2. The allowed set is the union of the keys of \<^verbatim>\<open>dependencies\<close>, of
  \<^verbatim>\<open>devDependencies\<close> when \<open>dev\<close> is set and of \<^verbatim>\<open>peerDependencies\<close> otherwise, and
  of \<^verbatim>\<open>optionalDependencies\<close> when \<open>optional\<close> is set. The code computes this union for
  every manifest in which no section has a key named \<^verbatim>\<open>hasOwnProperty\<close> (lemma
  \<open>getDependencies_union\<close>). For a manifest whose \<^verbatim>\<open>dependencies\<close> are
  \<^verbatim>\<open>hasOwnProperty\<close> and \<^verbatim>\<open>lodash\<close>, the call \<^verbatim>\<open>dependencies.hasOwnProperty(name)\<close>
  throws, the \<^verbatim>\<open>catch\<close> swallows the error, and the set returned is empty, where the
  union has both names; an import of \<^verbatim>\<open>lodash\<close> is then reported.
\<close>

theorem getDependencies_shadowed_dependency:
  "getDependencies shadow_host ''/proj/src/a.ts'' plain_options = Some {} \<and>
   JSON_parse shadow_host ''project manifest'' = Inr shadow_manifest \<and>
   allowed_spec shadow_manifest plain_options = {''hasOwnProperty'', ''lodash''} \<and>
   findImports shadow_host a_ts = [node ''lodash'' 8] \<and>
   map_option failures (walk shadow_host a_ts plain_options) =
     Some [\<lparr>failure_start = 8, failure_width = 8,
            failure_message = ''Module '' @ [CHR 0x27] @ ''lodash'' @ [CHR 0x27] @
              '' is not listed as dependency in package.json''\<rparr>]"
proof (intro conjI)
  show "getDependencies shadow_host ''/proj/src/a.ts'' plain_options = Some {}"
    by (rule shadow_allowed)
  show "JSON_parse shadow_host ''project manifest'' = Inr shadow_manifest"
    by (simp add: shadow_host_def sample_host_sel)
  show "allowed_spec shadow_manifest plain_options = {''hasOwnProperty'', ''lodash''}"
    by (simp add: allowed_spec_def section_keys_def shadow_manifest_def plain_options_def)
  show refs: "findImports shadow_host a_ts = [node ''lodash'' 8]"
    by (simp add: shadow_host_def sample_host_sel)
  have dep: "getDependencies shadow_host (fileName a_ts) plain_options = Some {}"
    by (simp add: a_ts_def shadow_allowed)
  have viol: "filter (is_violation shadow_host plain_options {}) [node ''lodash'' 8] =
      [node ''lodash'' 8]"
    by (simp add: is_violation_def shadow_host_def sample_host_sel node_def
        sample_relative_def getPackageName_def first_is_not_at_def plain_options_def)
  have shown: "map failure_at [node ''lodash'' 8] =
      [\<lparr>failure_start = 8, failure_width = 8,
            failure_message = ''Module '' @ [CHR 0x27] @ ''lodash'' @ [CHR 0x27] @
              '' is not listed as dependency in package.json''\<rparr>]"
    by (simp add: failure_at_def node_def getPackageName_def first_is_not_at_def
        FAILURE_STRING_FACTORY_def)
  show "map_option failures (walk shadow_host a_ts plain_options) =
     Some [\<lparr>failure_start = 8, failure_width = 8,
            failure_message = ''Module '' @ [CHR 0x27] @ ''lodash'' @ [CHR 0x27] @
              '' is not listed as dependency in package.json''\<rparr>]"
    unfolding walk_failures_resolved[OF dep] refs viol shown by (rule refl)
qed

text \<open>
  C3. For every reference text the derived package name is the first two segments joined
  by a slash when the text starts with \<open>@\<close>, and the first segment otherwise. The code
  agrees with this reading on every text that does not start with \<open>@\<close> or that contains
  a slash (lemma \<open>getPackageName_agrees_with_spec\<close>). On \<^verbatim>\<open>"@scope"\<close>, which has a
  single segment, it returns \<^verbatim>\<open>"@scope/undefined"\<close>, where the specification's wording
  gives \<^verbatim>\<open>"@scope"\<close>.
\<close>

theorem getPackageName_scope_without_package:
  "getPackageName ''@scope'' = ''@scope/undefined'' \<and> packageName_spec ''@scope'' = ''@scope''"
  by (simp add: getPackageName_def packageName_spec_def parts_of_def first_is_not_at_def
      template_string_def js_index_def)

text \<open>
  C4. When a manifest is located and reading it fails, or its content does not parse,
  \<open>getDependencies\<close> returns the empty set, the result it also returns when no manifest
  is found. Its result carries no error in either case.
\<close>

theorem getDependencies_soft_fail:
  "(findPackageJson h (path_resolve h (path_dirname h file)) = Some (Some p) \<and>
    (fs_readFileSync h p = Inl e \<or>
     (\<exists>raw. fs_readFileSync h p = Inr raw \<and> JSON_parse h (strip_bom raw) = Inl e))
    \<longrightarrow> getDependencies h file options = Some {}) \<and>
   (findPackageJson h' (path_resolve h' (path_dirname h' file')) = Some None
    \<longrightarrow> getDependencies h' file' options' = Some {})"
  by (auto simp: getDependencies_def getDependencies_try_def)

theorem getDependencies_soft_fail_witness:
  "getDependencies unreadable_host ''/proj/src/a.ts'' plain_options = Some {} \<and>
   getDependencies malformed_host ''/proj/src/a.ts'' plain_options = Some {} \<and>
   getDependencies bare_host ''/proj/src/a.ts'' plain_options = Some {}"
proof -
  from getDependencies_soft_fail[of unreadable_host "''/proj/src/a.ts''" "''/proj/package.json''"
      IOError plain_options bare_host "''/proj/src/a.ts''" plain_options]
  have "getDependencies unreadable_host ''/proj/src/a.ts'' plain_options = Some {}"
    and "getDependencies bare_host ''/proj/src/a.ts'' plain_options = Some {}"
    by (simp_all add: unreadable_evals bare_evals)
  moreover
  from getDependencies_soft_fail[of malformed_host "''/proj/src/a.ts''" "''/proj/package.json''"
      SyntaxError plain_options bare_host "''/proj/src/a.ts''" plain_options]
  have "getDependencies malformed_host ''/proj/src/a.ts'' plain_options = Some {}"
    by (simp add: malformed_evals)
  ultimately show ?thesis by simp
qed

text \<open>
  C5. From a starting directory \<open>d\<close> whose chain of parents reaches, after \<open>n\<close> steps, a
  directory that is its own parent, \<open>findPackageJson\<close> returns. It tests \<open>d\<close>, then its
  parent, and so on: there is a first directory \<open>k\<close> of the chain, at most \<open>n\<close> steps up,
  before which no directory holds a manifest or is its own parent, and the search ends
  there, with the manifest's path when the directory holds one, and otherwise with
  \<^verbatim>\<open>undefined\<close> because the directory is its own parent. When the search from the
  file's directory returns \<^verbatim>\<open>undefined\<close>, the allowed set is empty.
\<close>

theorem findPackageJson_terminates:
  assumes "ancestor h d (Suc n) = ancestor h d n"
  shows "findPackageJson h d \<noteq> None \<and>
    (\<exists>k\<le>n.
      (\<forall>j<k. \<not> fs_existsSync h (manifest_at h (ancestor h d j)) \<and>
             ancestor h d (Suc j) \<noteq> ancestor h d j) \<and>
      (if fs_existsSync h (manifest_at h (ancestor h d k))
       then findPackageJson h d = Some (Some (manifest_at h (ancestor h d k)))
       else ancestor h d (Suc k) = ancestor h d k \<and> findPackageJson h d = Some None)) \<and>
    (findPackageJson h (path_resolve h (path_dirname h file)) = Some None
       \<longrightarrow> getDependencies h file options = Some {})"
proof -
  from findPackageJson_search[OF assms] obtain k where k: "k \<le> n"
    and before: "\<forall>j<k. \<not> fs_existsSync h (manifest_at h (ancestor h d j)) \<and>
             ancestor h d (Suc j) \<noteq> ancestor h d j"
    and at: "if fs_existsSync h (manifest_at h (ancestor h d k))
       then findPackageJson h d = Some (Some (manifest_at h (ancestor h d k)))
       else ancestor h d (Suc k) = ancestor h d k \<and> findPackageJson h d = Some None"
    by blast
  from at have "findPackageJson h d \<noteq> None"
    by (auto split: if_splits)
  moreover from k before at have "\<exists>k\<le>n.
      (\<forall>j<k. \<not> fs_existsSync h (manifest_at h (ancestor h d j)) \<and>
             ancestor h d (Suc j) \<noteq> ancestor h d j) \<and>
      (if fs_existsSync h (manifest_at h (ancestor h d k))
       then findPackageJson h d = Some (Some (manifest_at h (ancestor h d k)))
       else ancestor h d (Suc k) = ancestor h d k \<and> findPackageJson h d = Some None)"
    by blast
  moreover have "findPackageJson h (path_resolve h (path_dirname h file)) = Some None
       \<longrightarrow> getDependencies h file options = Some {}"
    by (simp add: getDependencies_def)
  ultimately show ?thesis by blast
qed

theorem findPackageJson_terminates_witness:
  "ancestor bare_host ''/proj/src'' (Suc 2) = ancestor bare_host ''/proj/src'' 2 \<and>
   (\<exists>k\<le>2.
      (\<forall>j<k. \<not> fs_existsSync bare_host (manifest_at bare_host (ancestor bare_host ''/proj/src'' j)) \<and>
             ancestor bare_host ''/proj/src'' (Suc j) \<noteq> ancestor bare_host ''/proj/src'' j) \<and>
      (if fs_existsSync bare_host (manifest_at bare_host (ancestor bare_host ''/proj/src'' k))
       then findPackageJson bare_host ''/proj/src'' =
              Some (Some (manifest_at bare_host (ancestor bare_host ''/proj/src'' k)))
       else ancestor bare_host ''/proj/src'' (Suc k) = ancestor bare_host ''/proj/src'' k \<and>
            findPackageJson bare_host ''/proj/src'' = Some None)) \<and>
   findPackageJson bare_host ''/proj/src'' = Some None \<and>
   getDependencies bare_host ''/proj/src/a.ts'' plain_options = Some {}"
proof -
  have root: "ancestor bare_host ''/proj/src'' (Suc 2) = ancestor bare_host ''/proj/src'' 2"
    by (simp add: numeral_2_eq_2 bare_ancestors)
  from findPackageJson_terminates[OF root, of "''/proj/src/a.ts''" plain_options] root
  show ?thesis
    by (simp add: bare_evals)
qed

text \<open>
  C6. In one run of \<open>walk\<close> the allowed set is computed at most once: the count of
  calls of \<open>getDependencies\<close> at the end of the run is one when some reference reaches the
  decision and zero otherwise, however many references do. A decision taken when the set
  is already stored reads the stored set and leaves the state, the count included, as it
  was; and every decision leaves the set stored.
\<close>

theorem walk_resolves_once:
  "(walk h sf options = Some st \<longrightarrow>
      getDependencies_calls st \<le> 1 \<and>
      (getDependencies_calls st = 1) =
        (\<exists>name \<in> set (findImports h sf). needs_decision h name)) \<and>
   (dependencies_cell st' = Some deps \<longrightarrow>
      shouldWarnAboutDependency h sf options m st' =
        Some (m \<notin> deps \<and> m \<notin> set (ignore options), st')) \<and>
   (shouldWarnAboutDependency h sf options m st' = Some (warn, st'') \<longrightarrow>
      dependencies_cell st'' \<noteq> None \<and>
      getDependencies_calls st'' \<le> Suc (getDependencies_calls st'))"
proof (intro conjI impI)
  assume "walk h sf options = Some st"
  then show "getDependencies_calls st \<le> 1"
    and "(getDependencies_calls st = 1) =
        (\<exists>name \<in> set (findImports h sf). needs_decision h name)"
    by (auto simp: walk_char split: if_splits)
next
  assume "dependencies_cell st' = Some deps"
  then show "shouldWarnAboutDependency h sf options m st' =
        Some (m \<notin> deps \<and> m \<notin> set (ignore options), st')"
    by (rule shouldWarn_cached)
next
  assume a: "shouldWarnAboutDependency h sf options m st' = Some (warn, st'')"
  then show "dependencies_cell st'' \<noteq> None"
    by (cases "dependencies_cell st'") (auto simp: shouldWarn_first shouldWarn_cached)
  from a show "getDependencies_calls st'' \<le> Suc (getDependencies_calls st')"
    by (cases "dependencies_cell st'") (auto simp: shouldWarn_first shouldWarn_cached)
qed

theorem walk_resolves_once_witness:
  "map_option getDependencies_calls (walk project_host a_ts plain_options) = Some 1 \<and>
   length (filter (needs_decision project_host) (findImports project_host a_ts)) = 4"
proof -
  have refs: "findImports project_host a_ts = project_imports"
    by (simp add: project_host_def sample_host_sel)
  have four: "length (filter (needs_decision project_host) (findImports project_host a_ts)) = 4"
    by (simp add: refs project_walk_refs)
  then have some: "\<exists>name \<in> set (findImports project_host a_ts). needs_decision project_host name"
    by (metis (mono_tags) filter_False length_0_conv zero_neq_numeral)
  from project_run obtain st where st: "walk project_host a_ts plain_options = Some st"
    by blast
  from walk_resolves_once[of project_host a_ts plain_options st] st some
  have "getDependencies_calls st = 1"
    by blast
  with st four show ?thesis by simp
qed

text \<open>
  C7. A reference whose package name is in the list of built-in modules leaves the state
  of the walk unchanged, whatever set is stored and whatever the options are; and no
  failure of a run comes from such a reference.
\<close>

theorem builtin_never_reported:
  "(getPackageName (name_text name) \<in> set (builtins h)
      \<longrightarrow> walk_body h sf options name st = Some st) \<and>
   (walk h sf options = Some st'
      \<longrightarrow> (\<forall>f \<in> set (failures st'). \<exists>n \<in> set (findImports h sf).
             f = failure_at n \<and> getPackageName (name_text n) \<notin> set (builtins h)))"
proof (intro conjI impI ballI)
  assume "getPackageName (name_text name) \<in> set (builtins h)"
  then show "walk_body h sf options name st = Some st"
    by (simp add: walk_body_skip needs_decision_def)
next
  fix f assume "walk h sf options = Some st'" and "f \<in> set (failures st')"
  from walk_failures_needed[OF this]
  show "\<exists>n \<in> set (findImports h sf).
      f = failure_at n \<and> getPackageName (name_text n) \<notin> set (builtins h)"
    by (auto simp: needs_decision_def)
qed

theorem builtin_never_reported_witness:
  "getPackageName (name_text (node ''fs'' 30)) \<in> set (builtins project_host) \<and>
   ''fs'' \<notin> set (ignore plain_options) \<and>
   walk_body project_host a_ts plain_options (node ''fs'' 30)
     \<lparr>dependencies_cell = Some {}, failures = [], getDependencies_calls = 1\<rparr> =
   Some \<lparr>dependencies_cell = Some {}, failures = [], getDependencies_calls = 1\<rparr>"
proof -
  have b: "getPackageName (name_text (node ''fs'' 30)) \<in> set (builtins project_host)"
    by (simp add: node_def getPackageName_evals project_host_def sample_host_sel)
  from builtin_never_reported[of "node ''fs'' 30" project_host a_ts plain_options
      "\<lparr>dependencies_cell = Some {}, failures = [], getDependencies_calls = 1\<rparr>"] b
  show ?thesis
    by (simp add: plain_options_def)
qed

text \<open>
  C8. A reference whose text is relative leaves the state of the walk unchanged, whatever
  set is stored and whatever the options are; and no failure of a run comes from such a
  reference.
\<close>

theorem relative_never_reported:
  "(isExternalModuleNameRelative h (name_text name)
      \<longrightarrow> walk_body h sf options name st = Some st) \<and>
   (walk h sf options = Some st'
      \<longrightarrow> (\<forall>f \<in> set (failures st'). \<exists>n \<in> set (findImports h sf).
             f = failure_at n \<and> \<not> isExternalModuleNameRelative h (name_text n)))"
proof (intro conjI impI ballI)
  assume "isExternalModuleNameRelative h (name_text name)"
  then show "walk_body h sf options name st = Some st"
    by (simp add: walk_body_skip needs_decision_def)
next
  fix f assume "walk h sf options = Some st'" and "f \<in> set (failures st')"
  from walk_failures_needed[OF this]
  show "\<exists>n \<in> set (findImports h sf).
      f = failure_at n \<and> \<not> isExternalModuleNameRelative h (name_text n)"
    by (auto simp: needs_decision_def)
qed

theorem relative_never_reported_witness:
  "isExternalModuleNameRelative project_host (name_text (node ''./local'' 10)) \<and>
   getPackageName ''./local'' \<notin> {''lodash'', ''react''} \<and>
   walk_body project_host a_ts plain_options (node ''./local'' 10)
     \<lparr>dependencies_cell = Some {''lodash'', ''react''}, failures = [],
      getDependencies_calls = 1\<rparr> =
   Some \<lparr>dependencies_cell = Some {''lodash'', ''react''}, failures = [],
         getDependencies_calls = 1\<rparr>"
proof -
  have r: "isExternalModuleNameRelative project_host (name_text (node ''./local'' 10))"
    by (simp add: node_def project_host_def sample_host_sel sample_relative_def)
  from relative_never_reported[of project_host "node ''./local'' 10" a_ts plain_options
      "\<lparr>dependencies_cell = Some {''lodash'', ''react''}, failures = [],
        getDependencies_calls = 1\<rparr>"] r
  show ?thesis
    by (simp add: getPackageName_evals)
qed

text \<open>
  C9, as stated: a reference with the empty text has the empty package name, which
  matches no built-in module and no allowed name, so it is reported. It fails when the
  empty name is in \<open>ignore\<close>: the file below has one import, with the empty text; the
  empty name is neither built-in nor allowed, and no failure is reported.
\<close>

theorem empty_text_ignored_counterexample:
  "findImports empty_import_host a_ts = [node [] 7] \<and>
   name_text (node [] 7) = [] \<and>
   getPackageName [] = [] \<and>
   [] \<notin> set (builtins empty_import_host) \<and>
   getDependencies empty_import_host (fileName a_ts) ignore_empty_options =
     Some {''lodash'', ''react''} \<and>
   [] \<notin> {''lodash'', ''react''} \<and>
   map_option failures (walk empty_import_host a_ts ignore_empty_options) = Some []"
proof -
  have refs: "findImports empty_import_host a_ts = [node [] 7]"
    and nb: "[] \<notin> set (builtins empty_import_host)"
    by (simp_all add: empty_import_host_def sample_host_sel)
  have allowed: "getDependencies empty_import_host (fileName a_ts) ignore_empty_options =
      Some {''lodash'', ''react''}"
    by (simp add: a_ts_def empty_import_allowed ignore_empty_options_def
        project_manifest_allowed)
  have "filter (is_violation empty_import_host ignore_empty_options {''lodash'', ''react''})
      [node [] 7] = []"
    by (simp add: is_violation_def node_def getPackageName_evals ignore_empty_options_def)
  then have "map_option failures (walk empty_import_host a_ts ignore_empty_options) = Some []"
    by (simp add: walk_failures_resolved[OF allowed] refs)
  with refs nb allowed show ?thesis
    by (simp add: node_def getPackageName_evals)
qed

text \<open>
  C9, amended. A reference with the empty text has the empty package name. In a run for
  which \<open>getDependencies\<close> returns \<open>allowed\<close>, the reference contributes one failure, at its
  place among the failures of the other references, exactly when the empty text is not
  relative and the empty name is not in the list of built-in modules, not in \<open>allowed\<close>
  and not in \<open>ignore\<close>; otherwise it contributes none.
\<close>

theorem empty_text_reported_unless_listed:
  assumes "name_text name = []"
    and "findImports h sf = before @ name # after"
    and "getDependencies h (fileName sf) options = Some allowed"
  shows "getPackageName (name_text name) = [] \<and>
    map_option failures (walk h sf options) =
      Some (map failure_at (filter (is_violation h options allowed) before) @
            (if \<not> isExternalModuleNameRelative h [] \<and> [] \<notin> set (builtins h) \<and>
                [] \<notin> allowed \<and> [] \<notin> set (ignore options)
             then [failure_at name] else []) @
            map failure_at (filter (is_violation h options allowed) after))"
proof -
  have empty: "getPackageName (name_text name) = []"
    by (simp add: assms(1) getPackageName_evals)
  have "is_violation h options allowed name =
      (\<not> isExternalModuleNameRelative h [] \<and> [] \<notin> set (builtins h) \<and>
       [] \<notin> allowed \<and> [] \<notin> set (ignore options))"
    using empty by (simp add: is_violation_def assms(1))
  with empty show ?thesis
    by (simp add: walk_failures_resolved[OF assms(3)] assms(2))
qed

theorem empty_text_reported_unless_listed_witness:
  "name_text (node [] 7) = [] \<and>
   findImports empty_import_host a_ts = [] @ node [] 7 # [] \<and>
   getDependencies empty_import_host (fileName a_ts) plain_options = Some {''lodash'', ''react''} \<and>
   map_option failures (walk empty_import_host a_ts plain_options) =
     Some [\<lparr>failure_start = 7, failure_width = 2,
            failure_message = ''Module '' @ [CHR 0x27] @ [CHR 0x27] @
              '' is not listed as dependency in package.json''\<rparr>]"
proof -
  have t: "name_text (node [] 7) = []"
    by (simp add: node_def)
  have refs: "findImports empty_import_host a_ts = [] @ node [] 7 # []"
    by (simp add: empty_import_host_def sample_host_sel)
  have allowed: "getDependencies empty_import_host (fileName a_ts) plain_options =
      Some {''lodash'', ''react''}"
    by (simp add: a_ts_def empty_import_allowed plain_options_def project_manifest_allowed)
  have cond: "\<not> isExternalModuleNameRelative empty_import_host [] \<and>
      [] \<notin> set (builtins empty_import_host) \<and> [] \<notin> {''lodash'', ''react''} \<and>
      [] \<notin> set (ignore plain_options)"
    by (simp add: empty_import_host_def sample_host_sel sample_relative_def plain_options_def)
  have shown: "[failure_at (node [] 7)] =
      [\<lparr>failure_start = 7, failure_width = 2,
            failure_message = ''Module '' @ [CHR 0x27] @ [CHR 0x27] @
              '' is not listed as dependency in package.json''\<rparr>]"
    by (simp add: failure_at_def node_def getPackageName_evals FAILURE_STRING_FACTORY_def)
  from empty_text_reported_unless_listed[OF t refs allowed] cond
  have "map_option failures (walk empty_import_host a_ts plain_options) =
      Some [failure_at (node [] 7)]"
    by simp
  with t refs allowed shown show ?thesis
    by (simp only: simp_thms)
qed

text \<open>
  C10. For every text that begins with \<open>@\<close> and contains no slash, the derived package
  name is the text followed by \<^verbatim>\<open>/undefined\<close>, and so differs from the text itself.
\<close>

theorem getPackageName_scope_only:
  assumes "name = CHR ''@'' # rest" and "CHR ''/'' \<notin> set name"
  shows "getPackageName name = name @ ''/undefined'' \<and> getPackageName name \<noteq> name"
proof -
  from assms have "split_slash name = (name, [])"
    by (simp add: split_slash_no_slash)
  with assms(1) show ?thesis
    by (simp add: getPackageName_def first_is_not_at_def template_string_def js_index_def)
qed

theorem getPackageName_scope_only_witness:
  "''@scope'' = CHR ''@'' # ''scope'' \<and> CHR ''/'' \<notin> set ''@scope'' \<and>
   getPackageName ''@scope'' = ''@scope'' @ ''/undefined'' \<and>
   getPackageName ''@scope'' \<noteq> ''@scope''"
proof -
  have a: "''@scope'' = CHR ''@'' # ''scope''" and b: "CHR ''/'' \<notin> set ''@scope''"
    by simp_all
  from getPackageName_scope_only[OF a b] a b show ?thesis by simp
qed

end
